theory Spec2Isabelle
  imports Complex_Main
begin

section \<open>Data model (common/interfaces/location.interface.ts)\<close>

text \<open>
  A TypeScript \<open>number\<close> is modelled as a \<open>real\<close>: comparisons are the comparisons of the
  values, arithmetic is exact.  \<open>NaN\<close> and the two infinities have no counterpart, and the
  rounding of IEEE doubles is not modelled.  An optional field \<open>f?: T\<close> is a \<open>T option\<close>,
  \<open>undefined\<close> being \<open>None\<close>.  A string is a list of 8-bit characters, read as the code
  points U+0000 to U+00FF; a string with a code point above U+00FF has no counterpart.
\<close>

record Coordinates =
  lat :: real
  lng :: real

record Location = Coordinates +
  address :: string

record Place =
  place_id :: string
  name :: string
  category :: string
  description :: string
  distance_km :: real
  open_now :: bool
  image_url :: string
  location :: Location

record DiscoveryQuery =
  latitude :: real
  longitude :: real
  radius :: "real option"
  q_category :: "string option"
  limit :: "real option"

record Metadata =
  processing_time_ms :: int
  timestamp :: string

record DiscoveryResponse =
  results :: "Place list"
  r_total :: nat
  query :: DiscoveryQuery
  metadata :: Metadata

text \<open>The values of the enum \<open>PlaceCategory\<close>, in declaration order.\<close>

definition PlaceCategory :: "string list" where
  "PlaceCategory =
     [''restaurant'', ''cafe'', ''bar'', ''shop'', ''hotel'', ''attraction'', ''park'',
      ''hospital'', ''gas_station'', ''bank'', ''gym'', ''pharmacy'', ''event'',
      ''entertainment'', ''service'']"

section \<open>JavaScript built-ins used by the services\<close>

text \<open>Truthiness of an optional number (\<open>undefined\<close> and \<open>0\<close> are falsy) and of an
  optional string (\<open>undefined\<close> and the empty string are falsy).\<close>

fun truthy_num :: "real option \<Rightarrow> bool" where
  "truthy_num None = False"
| "truthy_num (Some x) = (x \<noteq> 0)"

fun truthy_str :: "string option \<Rightarrow> bool" where
  "truthy_str None = False"
| "truthy_str (Some s) = (s \<noteq> [])"

text \<open>\<open>x || d\<close> on an optional number.\<close>

fun or_default :: "real option \<Rightarrow> real \<Rightarrow> real" where
  "or_default None d = d"
| "or_default (Some x) d = (if x \<noteq> 0 then x else d)"

text \<open>\<open>isNaN\<close>: no real number is \<open>NaN\<close>.\<close>

definition isNaN :: "real \<Rightarrow> bool" where
  "isNaN x = False"

text \<open>\<open>Math.round\<close> rounds to the nearest integer, a tie going up.\<close>

definition Math_round :: "real \<Rightarrow> real" where
  "Math_round x = of_int \<lfloor>x + 1 / 2\<rfloor>"

text \<open>\<open>Math.atan2(y, x)\<close>, the angle of the point \<open>(x, y)\<close>.\<close>

definition Math_atan2 :: "real \<Rightarrow> real \<Rightarrow> real" where
  "Math_atan2 y x =
     (if 0 < x then arctan (y / x)
      else if x < 0 then (if 0 \<le> y then arctan (y / x) + pi else arctan (y / x) - pi)
      else if 0 < y then pi / 2
      else if y < 0 then - (pi / 2)
      else 0)"

text \<open>\<open>String.prototype.toLowerCase\<close> on the code points up to U+00FF: the letters
  \<open>A\<close> to \<open>Z\<close> (65 to 90) and the letters U+00C0 to U+00DE (192 to 222) without the
  multiplication sign U+00D7 (215) are moved up by 32, every other code point is kept.\<close>

definition lower_char :: "char \<Rightarrow> char" where
  "lower_char c =
     (let n = (of_char c :: nat)
      in if 65 \<le> n \<and> n \<le> 90 then char_of (n + 32)
         else if 192 \<le> n \<and> n \<le> 214 then char_of (n + 32)
         else if 216 \<le> n \<and> n \<le> 222 then char_of (n + 32)
         else c)"

definition toLowerCase :: "string \<Rightarrow> string" where
  "toLowerCase s = map lower_char s"

text \<open>The integer that \<open>slice\<close> makes of a numeric argument: truncation towards zero.\<close>

definition toInteger :: "real \<Rightarrow> int" where
  "toInteger x = (if 0 \<le> x then \<lfloor>x\<rfloor> else \<lceil>x\<rceil>)"

text \<open>\<open>xs.slice(0, e)\<close>: a negative end counts from the end of the array.\<close>

definition slice0 :: "'a list \<Rightarrow> real \<Rightarrow> 'a list" where
  "slice0 xs e =
     (let k = toInteger e
      in if k < 0 then take (nat (max (int (length xs) + k) 0)) xs else take (nat k) xs)"

text \<open>\<open>xs.sort(cmp)\<close> for a consistent comparator: the stable arrangement in which \<open>a\<close>
  stays before \<open>b\<close> unless \<open>cmp(a, b) > 0\<close>.  It is computed by insertion from the right.\<close>

fun insert_cmp :: "('a \<Rightarrow> 'a \<Rightarrow> real) \<Rightarrow> 'a \<Rightarrow> 'a list \<Rightarrow> 'a list" where
  "insert_cmp cmp x [] = [x]"
| "insert_cmp cmp x (y # ys) =
     (if cmp x y \<le> 0 then x # y # ys else y # insert_cmp cmp x ys)"

fun sort_cmp :: "('a \<Rightarrow> 'a \<Rightarrow> real) \<Rightarrow> 'a list \<Rightarrow> 'a list" where
  "sort_cmp cmp [] = []"
| "sort_cmp cmp (x # xs) = insert_cmp cmp x (sort_cmp cmp xs)"

text \<open>\<open>[...new Set(xs)]\<close>: the first occurrence of every element, in order.\<close>

fun uniq :: "'a list \<Rightarrow> 'a list" where
  "uniq [] = []"
| "uniq (x # xs) = x # uniq (filter (\<lambda>y. y \<noteq> x) xs)"

section \<open>DistanceUtil (common/utils/distance.util.ts)\<close>

definition EARTH_RADIUS_KM :: real where
  "EARTH_RADIUS_KM = 6371"

definition toRadians :: "real \<Rightarrow> real" where
  "toRadians degrees = degrees * (pi / 180)"

text \<open>
  \<open>calculateDistance\<close> in exact arithmetic.  The program evaluates the same expression in
  doubles, and the two differ where rounding decides: when the rounded sum \<open>a\<close> exceeds 1,
  the program has \<open>Math.sqrt(1 - a) = NaN\<close> and returns \<open>NaN\<close>, while here \<open>a\<close> is never
  above 1; and a product \<open>distance * 100\<close> within rounding error of a half is rounded to
  either side.  Away from these cases the value is the value of the program.
\<close>

definition calculateDistance ::
  "'a Coordinates_scheme \<Rightarrow> 'b Coordinates_scheme \<Rightarrow> real" where
  "calculateDistance point1 point2 =
     (let lat1Rad = toRadians (lat point1);
          lat2Rad = toRadians (lat point2);
          deltaLatRad = toRadians (lat point2 - lat point1);
          deltaLngRad = toRadians (lng point2 - lng point1);
          a = sin (deltaLatRad / 2) * sin (deltaLatRad / 2) +
              cos lat1Rad * cos lat2Rad *
              sin (deltaLngRad / 2) * sin (deltaLngRad / 2);
          c = 2 * Math_atan2 (sqrt a) (sqrt (1 - a));
          distance = EARTH_RADIUS_KM * c
      in Math_round (distance * 100) / 100)"

definition isValidLatitude :: "real \<Rightarrow> bool" where
  "isValidLatitude x = (\<not> isNaN x \<and> x \<ge> -90 \<and> x \<le> 90)"

definition isValidLongitude :: "real \<Rightarrow> bool" where
  "isValidLongitude x = (\<not> isNaN x \<and> x \<ge> -180 \<and> x \<le> 180)"

section \<open>MockDataService (discovery/services/mock-data.service.ts)\<close>

definition mk_place ::
  "string \<Rightarrow> string \<Rightarrow> string \<Rightarrow> string \<Rightarrow> bool \<Rightarrow> string \<Rightarrow> real \<Rightarrow> real \<Rightarrow> string \<Rightarrow> Place"
  where
  "mk_place i n c d opn img la lo addr =
     \<lparr>place_id = i, name = n, category = c, description = d, distance_km = 0,
      open_now = opn, image_url = img,
      location = \<lparr>lat = la, lng = lo, address = addr\<rparr>\<rparr>"

text \<open>The fixture list \<open>mockPlaces\<close>; every record is stored with \<open>distance_km: 0\<close>.\<close>

definition mockPlaces :: "Place list" where
  "mockPlaces =
   [mk_place ''rest_001'' ''Trattoria Alfredo'' ''restaurant''
      ''Authentic Italian pasta, great ambiance and fresh ingredients.'' True
      ''https://cdn.onspotx.ai/spots/alfredo.jpg''
      (40713 / 1000) (- (74005 / 1000)) ''123 Main St, New York, NY 10001'',
    mk_place ''cafe_002'' ''Blue Bottle Coffee'' ''cafe''
      ''Artisanal coffee roasters with specialty single-origin beans.'' True
      ''https://cdn.onspotx.ai/spots/blue-bottle.jpg''
      (40714 / 1000) (- (74007 / 1000)) ''456 Broadway, New York, NY 10012'',
    mk_place ''bar_003'' ''The Rooftop Lounge'' ''bar''
      ''Upscale cocktail bar with stunning city views.'' False
      ''https://cdn.onspotx.ai/spots/rooftop-lounge.jpg''
      (40712 / 1000) (- (74004 / 1000)) ''789 5th Ave, New York, NY 10019'',
    mk_place ''shop_004'' ''Central Park Bookstore'' ''shop''
      ''Independent bookstore with rare finds and cozy reading nooks.'' True
      ''https://cdn.onspotx.ai/spots/bookstore.jpg''
      (40715 / 1000) (- (74003 / 1000)) ''321 Park Ave, New York, NY 10016'',
    mk_place ''hotel_005'' ''The Plaza Hotel'' ''hotel''
      ''Luxury hotel with world-class amenities and service.'' True
      ''https://cdn.onspotx.ai/spots/plaza-hotel.jpg''
      (40716 / 1000) (- (74008 / 1000)) ''768 5th Ave, New York, NY 10019'',
    mk_place ''attr_006'' ''Brooklyn Bridge'' ''attraction''
      ''Historic suspension bridge offering breathtaking views.'' True
      ''https://cdn.onspotx.ai/spots/brooklyn-bridge.jpg''
      (407061 / 10000) (- (739969 / 10000)) ''Brooklyn Bridge, New York, NY 10038'',
    mk_place ''park_007'' ''Central Park'' ''park''
      ''Iconic urban park perfect for walking, jogging, and relaxation.'' True
      ''https://cdn.onspotx.ai/spots/central-park.jpg''
      (407829 / 10000) (- (739654 / 10000)) ''Central Park, New York, NY 10024'',
    mk_place ''hosp_008'' ''Mount Sinai Hospital'' ''hospital''
      ''Leading medical center with comprehensive healthcare services.'' True
      ''https://cdn.onspotx.ai/spots/mount-sinai.jpg''
      (407903 / 10000) (- (739503 / 10000)) ''1 Gustave L. Levy Pl, New York, NY 10029'',
    mk_place ''gas_009'' ''Shell Gas Station'' ''gas_station''
      ''Full-service gas station with convenience store.'' True
      ''https://cdn.onspotx.ai/spots/shell-station.jpg''
      (4071 / 100) (- (7401 / 100)) ''555 West St, New York, NY 10014'',
    mk_place ''bank_010'' ''Chase Bank'' ''bank''
      ''Full-service bank with ATM and financial advisory services.'' True
      ''https://cdn.onspotx.ai/spots/chase-bank.jpg''
      (40711 / 1000) (- (74002 / 1000)) ''999 Wall St, New York, NY 10005'',
    mk_place ''gym_011'' ''Equinox Fitness'' ''gym''
      ''Premium fitness club with state-of-the-art equipment.'' True
      ''https://cdn.onspotx.ai/spots/equinox.jpg''
      (40717 / 1000) (- (74001 / 1000)) ''222 Broadway, New York, NY 10038'',
    mk_place ''pharm_012'' ''CVS Pharmacy'' ''pharmacy''
      ''Full-service pharmacy with prescription and over-the-counter medications.'' True
      ''https://cdn.onspotx.ai/spots/cvs-pharmacy.jpg''
      (40708 / 1000) (- (74006 / 1000)) ''111 Houston St, New York, NY 10012'']"

text \<open>The methods read the field \<open>this.mockPlaces\<close>; it is their first argument.\<close>

definition getAllPlaces :: "Place list \<Rightarrow> Place list" where
  "getAllPlaces ps = ps"

definition getPlacesByCategory :: "Place list \<Rightarrow> string \<Rightarrow> Place list" where
  "getPlacesByCategory ps c =
     filter (\<lambda>place. toLowerCase (category place) = toLowerCase c) ps"

record QueryFilters =
  f_category :: "string option"
  f_openNow :: "bool option"
  f_limit :: "real option"

definition queryPlaces :: "Place list \<Rightarrow> QueryFilters option \<Rightarrow> Place list" where
  "queryPlaces ps filters =
     (let results0 = ps;
          results1 =
            (case filters of
               Some f \<Rightarrow>
                 (if truthy_str (f_category f)
                  then filter (\<lambda>place. toLowerCase (category place) =
                                        toLowerCase (the (f_category f))) results0
                  else results0)
             | None \<Rightarrow> results0);
          results2 =
            (case filters of
               Some f \<Rightarrow>
                 (case f_openNow f of
                    Some b \<Rightarrow> filter (\<lambda>place. open_now place = b) results1
                  | None \<Rightarrow> results1)
             | None \<Rightarrow> results1);
          results3 =
            (case filters of
               Some f \<Rightarrow>
                 (if truthy_num (f_limit f) \<and> the (f_limit f) > 0
                  then slice0 results2 (the (f_limit f))
                  else results2)
             | None \<Rightarrow> results2)
      in results3)"

definition getAvailableCategories :: "Place list \<Rightarrow> string list" where
  "getAvailableCategories ps = uniq (map category ps)"

record DataStatistics =
  totalPlaces :: nat
  categoriesCount :: nat
  openPlaces :: nat
  closedPlaces :: nat

definition getDataStatistics :: "Place list \<Rightarrow> DataStatistics" where
  "getDataStatistics ps =
     \<lparr>totalPlaces = length ps,
      categoriesCount = length (getAvailableCategories ps),
      openPlaces = length (filter (\<lambda>place. open_now place) ps),
      closedPlaces = length (filter (\<lambda>place. \<not> open_now place) ps)\<rparr>"

section \<open>DiscoveryService (discovery/services/discovery.service.ts)\<close>

text \<open>The three values the constructor reads from the configuration, and the defaults it
  passes to \<open>configService.get\<close>.\<close>

record Config =
  defaultRadius :: real
  maxRadius :: real
  maxResults :: real

definition defaultConfig :: Config where
  "defaultConfig = \<lparr>defaultRadius = 5, maxRadius = 50, maxResults = 50\<rparr>"

text \<open>Every \<open>throw new Error(...)\<close> of \<open>validateQuery\<close> is one constructor; it carries the
  numbers the message is built from.\<close>

datatype error =
  InvalidLatitude real
| InvalidLongitude real
| InvalidRadius real real
| InvalidLimit real real

definition validateQuery :: "Config \<Rightarrow> DiscoveryQuery \<Rightarrow> error + unit" where
  "validateQuery cfg q =
     (if \<not> isValidLatitude (latitude q) then Inl (InvalidLatitude (latitude q))
      else if \<not> isValidLongitude (longitude q) then Inl (InvalidLongitude (longitude q))
      else if truthy_num (radius q) \<and> (the (radius q) < 1 / 10 \<or> the (radius q) > maxRadius cfg)
        then Inl (InvalidRadius (the (radius q)) (maxRadius cfg))
      else if truthy_num (limit q) \<and> (the (limit q) < 1 \<or> the (limit q) > maxResults cfg)
        then Inl (InvalidLimit (the (limit q)) (maxResults cfg))
      else Inr ())"

definition calculateDistances :: "Place list \<Rightarrow> Coordinates \<Rightarrow> Place list" where
  "calculateDistances places centerPoint =
     map (\<lambda>place. place\<lparr>distance_km := calculateDistance centerPoint (location place)\<rparr>)
       places"

definition filterByRadius :: "Place list \<Rightarrow> real \<Rightarrow> Place list" where
  "filterByRadius places r = filter (\<lambda>place. distance_km place \<le> r) places"

definition sortByDistance :: "Place list \<Rightarrow> Place list" where
  "sortByDistance places = sort_cmp (\<lambda>a b. distance_km a - distance_km b) places"

text \<open>The clock readings of one call: \<open>Date.now()\<close> at its start and at its end, and the
  ISO string of the final \<open>new Date()\<close>.  The calls of the logger are left out; the
  \<open>catch\<close> block logs and throws the same error again, so an error of \<open>validateQuery\<close>
  is the error of \<open>discoverPlaces\<close>.  The promise of an \<open>async\<close> method is its result or
  its error.\<close>

record Clock =
  startTime :: int
  endTime :: int
  endIso :: string

definition discoverPlaces ::
  "Config \<Rightarrow> Place list \<Rightarrow> Clock \<Rightarrow> DiscoveryQuery \<Rightarrow> error + DiscoveryResponse" where
  "discoverPlaces cfg ps clk q =
     (case validateQuery cfg q of
        Inl e \<Rightarrow> Inl e
      | Inr _ \<Rightarrow>
         (let radius' = or_default (radius q) (defaultRadius cfg);
              limit' = min (or_default (limit q) 10) (maxResults cfg);
              allPlaces = (if truthy_str (q_category q)
                           then getPlacesByCategory ps (the (q_category q))
                           else getAllPlaces ps);
              centerPoint = \<lparr>lat = latitude q, lng = longitude q\<rparr>;
              placesWithDistance = calculateDistances allPlaces centerPoint;
              placesInRadius = filterByRadius placesWithDistance radius';
              sortedPlaces = sortByDistance placesInRadius;
              limitedResults = slice0 sortedPlaces limit'
          in Inr \<lparr>results = limitedResults,
                  r_total = length limitedResults,
                  query = \<lparr>latitude = latitude q, longitude = longitude q,
                           radius = Some radius', q_category = q_category q,
                           limit = Some limit'\<rparr>,
                  metadata = \<lparr>processing_time_ms = endTime clk - startTime clk,
                              timestamp = endIso clk\<rparr>\<rparr>))"

definition findNearestPlace ::
  "Config \<Rightarrow> Place list \<Rightarrow> Clock \<Rightarrow> real \<Rightarrow> real \<Rightarrow> string option \<Rightarrow> error + Place option"
  where
  "findNearestPlace cfg ps clk la lo cat =
     (let q = \<lparr>latitude = la, longitude = lo, radius = Some (maxRadius cfg),
               q_category = cat, limit = Some 1\<rparr>
      in case discoverPlaces cfg ps clk q of
           Inl e \<Rightarrow> Inl e
         | Inr response \<Rightarrow>
             Inr (if length (results response) > 0 then Some (results response ! 0)
                  else None))"

section \<open>The services on a heap of shared objects\<close>

text \<open>
  In the source a \<open>Place[]\<close> is an array of references to objects, and \<open>sort\<close> reorders
  the array it is called on.  To follow what a call may change, the same methods are
  modelled again on an explicit heap: an address holds a \<open>Place\<close> object or an array of
  addresses, \<open>h_next\<close> is the first unused address, and every array literal, \<open>filter\<close>,
  \<open>map\<close>, \<open>slice\<close> and object spread allocates.  The field \<open>location\<close> of a copy is the
  object of the original; no method writes to it, so it is kept as a value.  The argument
  \<open>repo\<close> is the address of the array in \<open>this.mockPlaces\<close>.
\<close>

type_synonym ref = nat

record heap =
  h_objects :: "ref \<Rightarrow> Place"
  h_arrays :: "ref \<Rightarrow> ref list"
  h_next :: ref

definition new_object :: "Place \<Rightarrow> heap \<Rightarrow> ref \<times> heap" where
  "new_object p h =
     (h_next h, h\<lparr>h_objects := (h_objects h)(h_next h := p), h_next := Suc (h_next h)\<rparr>)"

definition new_array :: "ref list \<Rightarrow> heap \<Rightarrow> ref \<times> heap" where
  "new_array rs h =
     (h_next h, h\<lparr>h_arrays := (h_arrays h)(h_next h := rs), h_next := Suc (h_next h)\<rparr>)"

definition getAllPlaces_h :: "ref \<Rightarrow> heap \<Rightarrow> ref \<times> heap" where
  "getAllPlaces_h repo h = new_array (h_arrays h repo) h"

definition getPlacesByCategory_h :: "ref \<Rightarrow> string \<Rightarrow> heap \<Rightarrow> ref \<times> heap" where
  "getPlacesByCategory_h repo c h =
     new_array
       (filter (\<lambda>r. toLowerCase (category (h_objects h r)) = toLowerCase c) (h_arrays h repo))
       h"

fun map_copy :: "(Place \<Rightarrow> Place) \<Rightarrow> ref list \<Rightarrow> heap \<Rightarrow> ref list \<times> heap" where
  "map_copy f [] h = ([], h)"
| "map_copy f (r # rs) h =
     (case new_object (f (h_objects h r)) h of
        (r', h1) \<Rightarrow> (case map_copy f rs h1 of (rs', h2) \<Rightarrow> (r' # rs', h2)))"

definition calculateDistances_h :: "ref \<Rightarrow> Coordinates \<Rightarrow> heap \<Rightarrow> ref \<times> heap" where
  "calculateDistances_h places centerPoint h =
     (case map_copy
             (\<lambda>place. place\<lparr>distance_km := calculateDistance centerPoint (location place)\<rparr>)
             (h_arrays h places) h of
        (rs, h1) \<Rightarrow> new_array rs h1)"

definition filterByRadius_h :: "ref \<Rightarrow> real \<Rightarrow> heap \<Rightarrow> ref \<times> heap" where
  "filterByRadius_h places r h =
     new_array (filter (\<lambda>x. distance_km (h_objects h x) \<le> r) (h_arrays h places)) h"

definition sortByDistance_h :: "ref \<Rightarrow> heap \<Rightarrow> ref \<times> heap" where
  "sortByDistance_h places h =
     (places,
      h\<lparr>h_arrays := (h_arrays h)
           (places := sort_cmp (\<lambda>a b. distance_km (h_objects h a) - distance_km (h_objects h b))
                        (h_arrays h places))\<rparr>)"

definition slice0_h :: "ref \<Rightarrow> real \<Rightarrow> heap \<Rightarrow> ref \<times> heap" where
  "slice0_h places e h = new_array (slice0 (h_arrays h places) e) h"

record DiscoveryResponse_h =
  results_h :: ref
  total_h :: nat
  query_h :: DiscoveryQuery
  metadata_h :: Metadata

definition discoverPlaces_h ::
  "Config \<Rightarrow> ref \<Rightarrow> Clock \<Rightarrow> DiscoveryQuery \<Rightarrow> heap \<Rightarrow> (error + DiscoveryResponse_h) \<times> heap"
  where
  "discoverPlaces_h cfg repo clk q h =
     (case validateQuery cfg q of
        Inl e \<Rightarrow> (Inl e, h)
      | Inr _ \<Rightarrow>
         (let radius' = or_default (radius q) (defaultRadius cfg);
              limit' = min (or_default (limit q) 10) (maxResults cfg);
              (allPlaces, h1) = (if truthy_str (q_category q)
                                 then getPlacesByCategory_h repo (the (q_category q)) h
                                 else getAllPlaces_h repo h);
              centerPoint = \<lparr>lat = latitude q, lng = longitude q\<rparr>;
              (placesWithDistance, h2) = calculateDistances_h allPlaces centerPoint h1;
              (placesInRadius, h3) = filterByRadius_h placesWithDistance radius' h2;
              (sortedPlaces, h4) = sortByDistance_h placesInRadius h3;
              (limitedResults, h5) = slice0_h sortedPlaces limit' h4
          in (Inr \<lparr>results_h = limitedResults,
                   total_h = length (h_arrays h5 limitedResults),
                   query_h = \<lparr>latitude = latitude q, longitude = longitude q,
                              radius = Some radius', q_category = q_category q,
                              limit = Some limit'\<rparr>,
                   metadata_h = \<lparr>processing_time_ms = endTime clk - startTime clk,
                                 timestamp = endIso clk\<rparr>\<rparr>, h5)))"

text \<open>Every address below \<open>n\<close> holds the same array and the same object in both heaps.\<close>

definition same_below :: "ref \<Rightarrow> heap \<Rightarrow> heap \<Rightarrow> bool" where
  "same_below n h h' \<longleftrightarrow>
     (\<forall>a. a < n \<longrightarrow> h_arrays h' a = h_arrays h a \<and> h_objects h' a = h_objects h a)"

text \<open>The places an array of the heap refers to, and a response read off the heap.\<close>

definition places_of :: "heap \<Rightarrow> ref \<Rightarrow> Place list" where
  "places_of h a = map (h_objects h) (h_arrays h a)"

definition response_of :: "heap \<Rightarrow> DiscoveryResponse_h \<Rightarrow> DiscoveryResponse" where
  "response_of h resp =
     \<lparr>results = places_of h (results_h resp), r_total = total_h resp,
      query = query_h resp, metadata = metadata_h resp\<rparr>"

section \<open>Concrete inputs used in the examples\<close>

definition clock0 :: Clock where
  "clock0 = \<lparr>startTime = 1705314600000, endTime = 1705314600003,
              endIso = ''2024-01-15T10:30:00.003Z''\<rparr>"

text \<open>A repository of two places at the same coordinates.\<close>

definition twoPlaces :: "Place list" where
  "twoPlaces =
     [mk_place ''rest_001'' ''Trattoria Alfredo'' ''restaurant'' ''Italian'' True ''a.jpg''
        (40713 / 1000) (- (74005 / 1000)) ''123 Main St'',
      mk_place ''cafe_101'' ''Corner Cafe'' ''cafe'' ''Coffee'' False ''b.jpg''
        (40713 / 1000) (- (74005 / 1000)) ''123 Main St'']"

text \<open>The query of the specification's scenario, without optional parameters.\<close>

definition nycQuery :: DiscoveryQuery where
  "nycQuery = \<lparr>latitude = 407128 / 10000, longitude = - (74006 / 1000), radius = None,
               q_category = None, limit = None\<rparr>"

text \<open>A query at the coordinates of both places, with the limit 1.\<close>

definition atAlfredo :: DiscoveryQuery where
  "atAlfredo = \<lparr>latitude = 40713 / 1000, longitude = - (74005 / 1000), radius = None,
                q_category = None, limit = Some 1\<rparr>"

text \<open>A heap that holds the two places at the addresses 0 and 1 and the repository array
  at address 2.\<close>

definition heap0 :: heap where
  "heap0 = \<lparr>h_objects = (\<lambda>a. if a = 0 then twoPlaces ! 0 else twoPlaces ! 1),
             h_arrays = (\<lambda>a. if a = 2 then [0, 1] else []),
             h_next = 3\<rparr>"

section \<open>Statistics of the fixture data\<close>

lemma length_filter_partition:
  "length (filter P xs) + length (filter (\<lambda>x. \<not> P x) xs) = length xs"
  by (induction xs) auto

text \<open>
  C9: the statistics partition the place list: the open and the closed places add up to
  \<open>totalPlaces\<close>, and \<open>totalPlaces\<close> is the number of places of the repository list.
\<close>

theorem getDataStatistics_partition:
  "openPlaces (getDataStatistics ps) + closedPlaces (getDataStatistics ps)
     = totalPlaces (getDataStatistics ps)
   \<and> totalPlaces (getDataStatistics ps) = length ps"
  by (simp add: getDataStatistics_def length_filter_partition)

section \<open>The limit step of queryPlaces\<close>

text \<open>
  C10: when \<open>filters.limit\<close> is zero or negative, \<open>queryPlaces\<close> skips the limit step: it
  returns every place that passes the category filter and the \<open>openNow\<close> filter, which
  is what it returns without a limit.
\<close>

theorem queryPlaces_nonpositive_limit:
  assumes "f_limit f = Some l" and "l \<le> 0"
  shows "queryPlaces ps (Some f) =
           (let byCategory =
                  (if truthy_str (f_category f)
                   then filter (\<lambda>place. toLowerCase (category place) =
                                          toLowerCase (the (f_category f))) ps
                   else ps)
            in case f_openNow f of
                 Some b \<Rightarrow> filter (\<lambda>place. open_now place = b) byCategory
               | None \<Rightarrow> byCategory)
         \<and> queryPlaces ps (Some f) = queryPlaces ps (Some (f\<lparr>f_limit := None\<rparr>))"
  using assms by (auto simp: queryPlaces_def Let_def split: option.splits)

theorem queryPlaces_nonpositive_limit_witness:
  "queryPlaces mockPlaces
     (Some \<lparr>f_category = Some ''BAR'', f_openNow = Some False, f_limit = Some (- 3)\<rparr>)
     = [mockPlaces ! 2]
   \<and> queryPlaces mockPlaces
     (Some \<lparr>f_category = None, f_openNow = None, f_limit = Some 0\<rparr>) = mockPlaces"
proof -
  have "queryPlaces mockPlaces
          (Some \<lparr>f_category = Some ''BAR'', f_openNow = Some False, f_limit = Some (- 3)\<rparr>)
        = filter (\<lambda>place. open_now place = False)
            (filter (\<lambda>place. toLowerCase (category place) = toLowerCase ''BAR'') mockPlaces)"
    using queryPlaces_nonpositive_limit
      [of "\<lparr>f_category = Some ''BAR'', f_openNow = Some False, f_limit = Some (- 3)\<rparr>"
          "- 3" mockPlaces, THEN conjunct1]
    by simp
  also have "\<dots> = [mockPlaces ! 2]"
    by code_simp
  finally have neg: "queryPlaces mockPlaces
          (Some \<lparr>f_category = Some ''BAR'', f_openNow = Some False, f_limit = Some (- 3)\<rparr>)
        = [mockPlaces ! 2]" .
  have zero: "queryPlaces mockPlaces
          (Some \<lparr>f_category = None, f_openNow = None, f_limit = Some 0\<rparr>) = mockPlaces"
    using queryPlaces_nonpositive_limit
      [of "\<lparr>f_category = None, f_openNow = None, f_limit = Some 0\<rparr>" 0 mockPlaces,
       THEN conjunct1]
    by simp
  from neg zero show ?thesis by (rule conjI)
qed

section \<open>The distance function\<close>

lemma sin_half_delta_sq:
  "sin (toRadians (x - y) / 2) * sin (toRadians (x - y) / 2)
     = sin (toRadians (y - x) / 2) * sin (toRadians (y - x) / 2)"
proof -
  have "toRadians (x - y) / 2 = - (toRadians (y - x) / 2)"
    by (simp add: toRadians_def field_simps)
  then show ?thesis by (simp only: sin_minus)
qed

lemma haversine_term_sym:
  fixes c1 c2 s1 s2 p1 p2 :: real
  assumes "p1 = p2" and "s1 * s1 = s2 * s2"
  shows "p1 + c1 * c2 * s1 * s1 = p2 + c2 * c1 * s2 * s2"
proof -
  have "c1 * c2 * s1 * s1 = c1 * c2 * (s1 * s1)" by (simp only: mult.assoc)
  also have "\<dots> = c2 * c1 * (s2 * s2)" by (simp only: assms mult.commute [of c1 c2])
  also have "\<dots> = c2 * c1 * s2 * s2" by (simp only: mult.assoc)
  finally show ?thesis using assms(1) by simp
qed

lemma calculateDistance_commute: "calculateDistance a b = calculateDistance b a"
proof -
  have "sin (toRadians (lat b - lat a) / 2) * sin (toRadians (lat b - lat a) / 2) +
        cos (toRadians (lat a)) * cos (toRadians (lat b)) *
        sin (toRadians (lng b - lng a) / 2) * sin (toRadians (lng b - lng a) / 2)
      = sin (toRadians (lat a - lat b) / 2) * sin (toRadians (lat a - lat b) / 2) +
        cos (toRadians (lat b)) * cos (toRadians (lat a)) *
        sin (toRadians (lng a - lng b) / 2) * sin (toRadians (lng a - lng b) / 2)"
    by (rule haversine_term_sym) (rule sin_half_delta_sq)+
  then show ?thesis
    unfolding calculateDistance_def Let_def
    by (rule arg_cong [where f = "\<lambda>t. Math_round
          (EARTH_RADIUS_KM * (2 * Math_atan2 (sqrt t) (sqrt (1 - t))) * 100) / 100"])
qed

lemma calculateDistance_same_point:
  "lat a = lat b \<Longrightarrow> lng a = lng b \<Longrightarrow> calculateDistance a b = 0"
  by (simp add: calculateDistance_def toRadians_def Math_atan2_def Math_round_def)

text \<open>In exact arithmetic the haversine term of the points (8, 0) and (-8, 180) is 1 and
  their distance is half the circumference.\<close>

lemma calculateDistance_antipodal_exact:
  "calculateDistance \<lparr>lat = 8, lng = 0\<rparr> \<lparr>lat = - 8, lng = 180\<rparr>
     = Math_round (EARTH_RADIUS_KM * pi * 100) / 100"
proof -
  have c: "cos (toRadians 8) * cos (toRadians (- 8)) = (cos (toRadians 8))\<^sup>2"
    by (simp add: toRadians_def power2_eq_square)
  have s: "sin (toRadians (- 8 - 8) / 2) * sin (toRadians (- 8 - 8) / 2)
             = (sin (toRadians 8))\<^sup>2"
    by (simp add: toRadians_def power2_eq_square)
  have l: "sin (toRadians (180 - 0) / 2) = 1"
    by (simp add: toRadians_def)
  have a: "sin (toRadians (- 8 - 8) / 2) * sin (toRadians (- 8 - 8) / 2) +
           cos (toRadians 8) * cos (toRadians (- 8)) *
           sin (toRadians (180 - 0) / 2) * sin (toRadians (180 - 0) / 2) = 1"
    by (simp only: l mult_1_right c s) simp
  show ?thesis
    by (simp only: calculateDistance_def Let_def Coordinates.simps a)
      (simp add: Math_atan2_def)
qed

text \<open>
  C7: in exact arithmetic \<open>calculateDistance\<close> is symmetric and zero at identical points
  (\<open>calculateDistance_commute\<close>, \<open>calculateDistance_same_point\<close>), and the steps of the second
  lemma are exact in doubles too: the distance of a point to itself is 0 in the program.
  Symmetry is not a property of the program.  For the points (8, 0) and (-8, 180), both in
  the valid ranges, the double sum \<open>a = sin\<^sup>2 + cos\<^sup>2\<close> is 1.0000000000000002, so
  \<open>Math.sqrt(1 - a)\<close> is \<open>NaN\<close> and \<open>calculateDistance\<close> returns \<open>NaN\<close> in both orders;
  \<open>NaN\<close> is not equal to \<open>NaN\<close>, and the function returns no distance there.  The
  expression has no clamp of \<open>a\<close> to 1.  In exact arithmetic the distance of these points
  is finite (\<open>calculateDistance_antipodal_exact\<close>).
\<close>

text \<open>Along a meridian the distance is the arc of the difference of the latitudes.\<close>

lemma Math_atan2_sin_cos:
  assumes "0 \<le> x" and "x < pi / 2"
  shows "Math_atan2 (sin x) (cos x) = x"
proof -
  have c: "0 < cos x" using assms by (intro cos_gt_zero_pi) auto
  have "arctan (sin x / cos x) = x"
    using assms arctan_tan [of x] by (simp add: tan_def)
  with c show ?thesis by (simp add: Math_atan2_def)
qed

lemma calculateDistance_meridian:
  assumes "lng a = lng b" and "\<bar>lat b - lat a\<bar> < 180"
  shows "calculateDistance a b
           = Math_round (EARTH_RADIUS_KM * toRadians \<bar>lat b - lat a\<bar> * 100) / 100"
proof -
  define h where "h = toRadians \<bar>lat b - lat a\<bar> / 2"
  have h0: "0 \<le> h" by (simp add: h_def toRadians_def)
  have h1: "h < pi / 2" using assms(2) by (simp add: h_def toRadians_def)
  have sq: "sin (toRadians (lat b - lat a) / 2) * sin (toRadians (lat b - lat a) / 2)
            = (sin h)\<^sup>2"
  proof (cases "0 \<le> lat b - lat a")
    case True
    then show ?thesis by (simp add: h_def power2_eq_square)
  next
    case False
    then have "toRadians (lat b - lat a) / 2 = - h"
      by (simp add: h_def toRadians_def field_simps)
    then show ?thesis by (simp add: power2_eq_square)
  qed
  have s: "0 \<le> sin h" using h0 h1 by (intro sin_ge_zero) (auto intro: less_imp_le)
  have c: "0 \<le> cos h" using h0 h1 by (intro cos_ge_zero) auto
  have r1: "sqrt ((sin h)\<^sup>2) = sin h" using s by simp
  have "1 - (sin h)\<^sup>2 = (cos h)\<^sup>2" by (simp add: cos_squared_eq)
  then have r2: "sqrt (1 - (sin h)\<^sup>2) = cos h" using c by simp
  have t: "2 * Math_atan2 (sin h) (cos h) = toRadians \<bar>lat b - lat a\<bar>"
    using Math_atan2_sin_cos [OF h0 h1] by (simp add: h_def)
  have z: "sin (toRadians (lng b - lng a) / 2) = 0"
    using assms(1) by (simp add: toRadians_def)
  have A: "sin (toRadians (lat b - lat a) / 2) * sin (toRadians (lat b - lat a) / 2) +
           cos (toRadians (lat a)) * cos (toRadians (lat b)) *
           sin (toRadians (lng b - lng a) / 2) * sin (toRadians (lng b - lng a) / 2)
           = (sin h)\<^sup>2"
    by (simp only: sq z mult_zero_right add_0_right)
  have "calculateDistance a b
          = Math_round (EARTH_RADIUS_KM *
              (2 * Math_atan2 (sqrt ((sin h)\<^sup>2)) (sqrt (1 - (sin h)\<^sup>2))) * 100) / 100"
    unfolding calculateDistance_def Let_def by (simp only: A)
  also have "\<dots> = Math_round (EARTH_RADIUS_KM * (2 * Math_atan2 (sin h) (cos h)) * 100) / 100"
    by (simp only: r1 r2)
  also have "\<dots> = Math_round (EARTH_RADIUS_KM * toRadians \<bar>lat b - lat a\<bar> * 100) / 100"
    by (simp only: t)
  finally show ?thesis .
qed

text \<open>Only \<open>2 \<le> pi < 4\<close> is used: one hundredth of a degree of latitude is between
  0.71 and 1.42 km.\<close>

lemma calculateDistance_hundredth_degree:
  assumes "lng a = lng b" and "\<bar>lat b - lat a\<bar> = 1 / 100"
  shows "71 / 100 \<le> calculateDistance a b \<and> calculateDistance a b \<le> 142 / 100"
proof -
  have d: "calculateDistance a b = Math_round (6371 * pi / 180) / 100"
    using calculateDistance_meridian [OF assms(1)] assms(2)
    by (simp add: EARTH_RADIUS_KM_def toRadians_def)
  have lo: "141 / 2 \<le> 6371 * pi / 180" using pi_ge_two by simp
  have hi: "6371 * pi / 180 < 142" using pi_less_4 by simp
  have "71 \<le> \<lfloor>6371 * pi / 180 + 1 / 2\<rfloor>" using lo by (simp only: le_floor_iff)
  moreover have "\<lfloor>6371 * pi / 180 + 1 / 2\<rfloor> \<le> 142" using hi by (simp only: floor_le_iff)
  ultimately show ?thesis by (simp add: d Math_round_def)
qed

section \<open>Sorting and slicing\<close>

lemma set_insert_cmp: "set (insert_cmp cmp x xs) = insert x (set xs)"
  by (induction xs) auto

lemma set_sort_cmp: "set (sort_cmp cmp xs) = set xs"
  by (induction xs) (simp_all add: set_insert_cmp)

lemma length_insert_cmp: "length (insert_cmp cmp x xs) = Suc (length xs)"
  by (induction xs) auto

lemma length_sort_cmp: "length (sort_cmp cmp xs) = length xs"
  by (induction xs) (simp_all add: length_insert_cmp)

lemma sorted_insert_key:
  "sorted (map f xs) \<Longrightarrow> sorted (map f (insert_cmp (\<lambda>a b. f a - f b) x xs))"
  by (induction xs) (auto simp: set_insert_cmp)

lemma sorted_sort_key: "sorted (map f (sort_cmp (\<lambda>a b. f a - f b) xs))"
  by (induction xs) (simp_all add: sorted_insert_key)

lemma sorted_sortByDistance: "sorted (map distance_km (sortByDistance places))"
  unfolding sortByDistance_def by (rule sorted_sort_key)

lemma slice0_take: "\<exists>n. slice0 xs e = take n xs"
  by (auto simp: slice0_def Let_def)

lemma set_slice0: "set (slice0 xs e) \<subseteq> set xs"
  using slice0_take [of xs e] by (auto dest: in_set_takeD)

lemma sorted_slice0: "sorted (map f xs) \<Longrightarrow> sorted (map f (slice0 xs e))"
  using slice0_take [of xs e] by (auto simp: take_map [symmetric] sorted_wrt_take)

lemma length_slice0: "0 \<le> e \<Longrightarrow> real (length (slice0 xs e)) \<le> e"
proof -
  assume e: "0 \<le> e"
  then have "slice0 xs e = take (nat \<lfloor>e\<rfloor>) xs"
    by (simp add: slice0_def toInteger_def Let_def)
  then have "length (slice0 xs e) \<le> nat \<lfloor>e\<rfloor>" by simp
  then have "real (length (slice0 xs e)) \<le> real (nat \<lfloor>e\<rfloor>)" by simp
  also have "\<dots> = of_int \<lfloor>e\<rfloor>" using e by simp
  also have "\<dots> \<le> e" by simp
  finally show ?thesis .
qed

lemma slice0_Nil [simp]: "slice0 [] e = []"
  by (simp add: slice0_def Let_def)

lemma slice0_singleton: "1 \<le> e \<Longrightarrow> slice0 [x] e = [x]"
proof -
  assume e: "1 \<le> e"
  then have "1 \<le> \<lfloor>e\<rfloor>" by (simp add: le_floor_iff)
  then have "nat \<lfloor>e\<rfloor> = Suc (nat \<lfloor>e\<rfloor> - 1)" by simp
  moreover have "toInteger e = \<lfloor>e\<rfloor>" using e by (simp add: toInteger_def)
  ultimately show ?thesis
    using \<open>1 \<le> \<lfloor>e\<rfloor>\<close> by (simp add: slice0_def Let_def take_Cons')
qed

lemma map_insert_cmp:
  "map f (insert_cmp (\<lambda>a b. cmp (f a) (f b)) x xs) = insert_cmp cmp (f x) (map f xs)"
  by (induction xs) auto

lemma map_sort_cmp:
  "map f (sort_cmp (\<lambda>a b. cmp (f a) (f b)) xs) = sort_cmp cmp (map f xs)"
  by (induction xs) (simp_all add: map_insert_cmp)

lemma map_slice0: "map f (slice0 xs e) = slice0 (map f xs) e"
  by (simp add: slice0_def Let_def take_map)

section \<open>Validation\<close>

lemma discoverPlaces_validation_first:
  "validateQuery cfg q = Inl e \<Longrightarrow> discoverPlaces cfg ps clk q = Inl e"
  by (simp add: discoverPlaces_def)

lemma discoverPlaces_Inr_iff:
  "(\<exists>r. discoverPlaces cfg ps clk q = Inr r) \<longleftrightarrow> validateQuery cfg q = Inr ()"
  by (cases "validateQuery cfg q") (auto simp: discoverPlaces_def Let_def)

text \<open>The rejections in general: a latitude or a longitude out of range, a radius and a
  limit that are not zero and out of range.\<close>

lemma rejects_latitude:
  "latitude q < - 90 \<or> 90 < latitude q \<Longrightarrow>
   discoverPlaces cfg ps clk q = Inl (InvalidLatitude (latitude q))"
  by (auto simp: discoverPlaces_def validateQuery_def isValidLatitude_def)

lemma rejects_longitude:
  "isValidLatitude (latitude q) \<Longrightarrow> longitude q < - 180 \<or> 180 < longitude q \<Longrightarrow>
   discoverPlaces cfg ps clk q = Inl (InvalidLongitude (longitude q))"
  by (auto simp: discoverPlaces_def validateQuery_def isValidLongitude_def)

lemma rejects_radius:
  "isValidLatitude (latitude q) \<Longrightarrow> isValidLongitude (longitude q) \<Longrightarrow>
   radius q = Some x \<Longrightarrow> x \<noteq> 0 \<Longrightarrow> x < 1 / 10 \<or> maxRadius cfg < x \<Longrightarrow>
   discoverPlaces cfg ps clk q = Inl (InvalidRadius x (maxRadius cfg))"
  by (auto simp: discoverPlaces_def validateQuery_def)

lemma rejects_limit:
  "isValidLatitude (latitude q) \<Longrightarrow> isValidLongitude (longitude q) \<Longrightarrow>
   \<not> truthy_num (radius q) \<or> 1 / 10 \<le> the (radius q) \<and> the (radius q) \<le> maxRadius cfg \<Longrightarrow>
   limit q = Some l \<Longrightarrow> l \<noteq> 0 \<Longrightarrow> l < 1 \<or> maxResults cfg < l \<Longrightarrow>
   discoverPlaces cfg ps clk q = Inl (InvalidLimit l (maxResults cfg))"
  by (auto simp: discoverPlaces_def validateQuery_def)

lemma validateQuery_limit_bounds:
  assumes "validateQuery cfg q = Inr ()" and "limit q = Some l" and "l \<noteq> 0"
  shows "1 \<le> l \<and> l \<le> maxResults cfg"
  using assms by (auto simp: validateQuery_def split: if_splits)

lemma validateQuery_radius_bounds:
  assumes "validateQuery cfg q = Inr ()" and "radius q = Some x" and "x \<noteq> 0"
  shows "1 / 10 \<le> x \<and> x \<le> maxRadius cfg"
  using assms by (auto simp: validateQuery_def split: if_splits)

text \<open>A radius or a limit of zero is falsy: the range test is skipped.\<close>

lemma validateQuery_zero_limit:
  "validateQuery cfg (q\<lparr>limit := Some 0\<rparr>) = validateQuery cfg (q\<lparr>limit := None\<rparr>)"
  by (auto simp: validateQuery_def)

lemma validateQuery_zero_radius:
  "validateQuery cfg (q\<lparr>radius := Some 0\<rparr>) = validateQuery cfg (q\<lparr>radius := None\<rparr>)"
  by (auto simp: validateQuery_def)

text \<open>
  C2: the four examples, each on the query \<open>nycQuery\<close> with one parameter replaced.
  Latitude 91, longitude -181 and radius 0.05 are rejected.  Limit 0 is not: the query
  passes \<open>validateQuery\<close>, and \<open>discoverPlaces\<close> returns a response whose effective limit
  is the default 10.
\<close>

theorem discoverPlaces_validation_examples:
  "discoverPlaces defaultConfig ps clk (nycQuery\<lparr>latitude := 91\<rparr>) = Inl (InvalidLatitude 91)
 \<and> discoverPlaces defaultConfig ps clk (nycQuery\<lparr>longitude := - 181\<rparr>)
       = Inl (InvalidLongitude (- 181))
 \<and> discoverPlaces defaultConfig ps clk (nycQuery\<lparr>radius := Some (5 / 100)\<rparr>)
       = Inl (InvalidRadius (5 / 100) 50)
 \<and> validateQuery defaultConfig (nycQuery\<lparr>limit := Some 0\<rparr>) = Inr ()
 \<and> (\<exists>r. discoverPlaces defaultConfig ps clk (nycQuery\<lparr>limit := Some 0\<rparr>) = Inr r
        \<and> limit (query r) = Some 10)"
  by (simp add: discoverPlaces_def validateQuery_def isValidLatitude_def isValidLongitude_def
      isNaN_def nycQuery_def defaultConfig_def Let_def)

section \<open>Categories\<close>

lemma validateQuery_nycQuery_category:
  "validateQuery defaultConfig (nycQuery\<lparr>q_category := c\<rparr>) = Inr ()"
  by (simp add: validateQuery_def nycQuery_def isValidLatitude_def isValidLongitude_def
      isNaN_def)

lemma mockPlaces_categories_known:
  "\<forall>p \<in> set mockPlaces. toLowerCase (category p) \<in> set PlaceCategory"
  by code_simp

lemma getPlacesByCategory_unknown:
  "toLowerCase c \<notin> set PlaceCategory \<Longrightarrow> getPlacesByCategory mockPlaces c = []"
  using mockPlaces_categories_known
  by (auto simp: getPlacesByCategory_def filter_empty_conv)

lemma no_candidates_no_results:
  assumes "validateQuery cfg q = Inr ()" and "q_category q = Some c" and "c \<noteq> []"
    and "getPlacesByCategory ps c = []"
  shows "\<exists>r. discoverPlaces cfg ps clk q = Inr r \<and> results r = [] \<and> r_total r = 0"
  using assms
  by (simp add: discoverPlaces_def Let_def calculateDistances_def filterByRadius_def
      sortByDistance_def)

lemma museum_unknown: "''museum'' \<notin> set PlaceCategory \<and> toLowerCase ''museum'' = ''museum''"
  by code_simp

text \<open>
  C3, as stated, fails: \<open>museum\<close> is not a known category, the other parameters of the
  query are valid, and \<open>discoverPlaces\<close> returns a response with no results instead of
  an error.
\<close>

theorem discoverPlaces_unknown_category_counterexample:
  "''museum'' \<notin> set PlaceCategory
   \<and> discoverPlaces defaultConfig mockPlaces clock0 (nycQuery\<lparr>q_category := Some ''museum''\<rparr>)
     = Inr \<lparr>results = [], r_total = 0,
            query = \<lparr>latitude = 407128 / 10000, longitude = - (74006 / 1000),
                     radius = Some 5, q_category = Some ''museum'', limit = Some 10\<rparr>,
            metadata = \<lparr>processing_time_ms = 3,
                         timestamp = ''2024-01-15T10:30:00.003Z''\<rparr>\<rparr>"
proof -
  have m: "''museum'' \<notin> set PlaceCategory" by (simp add: museum_unknown)
  have "getPlacesByCategory mockPlaces ''museum'' = []"
    by (rule getPlacesByCategory_unknown) (simp add: museum_unknown)
  then have "discoverPlaces defaultConfig mockPlaces clock0
               (nycQuery\<lparr>q_category := Some ''museum''\<rparr>)
     = Inr \<lparr>results = [], r_total = 0,
            query = \<lparr>latitude = 407128 / 10000, longitude = - (74006 / 1000),
                     radius = Some 5, q_category = Some ''museum'', limit = Some 10\<rparr>,
            metadata = \<lparr>processing_time_ms = 3,
                         timestamp = ''2024-01-15T10:30:00.003Z''\<rparr>\<rparr>"
    by (simp add: discoverPlaces_def validateQuery_nycQuery_category Let_def
        calculateDistances_def filterByRadius_def sortByDistance_def)
      (simp add: nycQuery_def defaultConfig_def clock0_def)
  with m show ?thesis by (rule conjI)
qed

text \<open>\<open>validateQuery\<close> does not read the category of the query.\<close>

lemma validateQuery_ignores_category:
  "validateQuery cfg (q\<lparr>q_category := c\<rparr>) = validateQuery cfg q"
  by (auto simp: validateQuery_def)

text \<open>A query with latitude, longitude, radius and limit in their ranges passes
  \<open>validateQuery\<close>.\<close>

lemma validateQuery_in_range:
  assumes "- 90 \<le> latitude q" and "latitude q \<le> 90"
    and "- 180 \<le> longitude q" and "longitude q \<le> 180"
    and "\<forall>x. radius q = Some x \<longrightarrow> 1 / 10 \<le> x \<and> x \<le> maxRadius cfg"
    and "\<forall>l. limit q = Some l \<longrightarrow> 1 \<le> l \<and> l \<le> maxResults cfg"
  shows "validateQuery cfg q = Inr ()"
proof -
  have r: "\<not> (truthy_num (radius q)
               \<and> (the (radius q) < 1 / 10 \<or> the (radius q) > maxRadius cfg))"
    using assms(5) by (cases "radius q") auto
  have l: "\<not> (truthy_num (limit q)
               \<and> (the (limit q) < 1 \<or> the (limit q) > maxResults cfg))"
    using assms(6) by (cases "limit q") auto
  show ?thesis
    using assms(1-4) r l
    by (simp add: validateQuery_def isValidLatitude_def isValidLongitude_def isNaN_def)
qed

text \<open>A rejected call returns before the repository is read: nothing is allocated, the
  heap is the heap before the call.\<close>

lemma discoverPlaces_h_validation_first:
  "validateQuery cfg q = Inl e \<Longrightarrow> discoverPlaces_h cfg repo clk q h = (Inl e, h)"
  by (simp add: discoverPlaces_h_def)

text \<open>
  C3, amended: \<open>validateQuery\<close> never inspects the category: it gives the same outcome
  whatever the category of the query is.  For every query whose latitude, longitude, radius
  and limit are all valid (latitude in [-90, 90], longitude in [-180, 180], radius absent or
  in [0.1, maxRadius], limit absent or in [1, maxResults]) and whose category is present
  but not a member of the known category set, \<open>discoverPlaces\<close> does not fail, on any
  repository; when the category is moreover not empty and not a known category in lower
  case, the response on the fixture list has no results and total 0.  Validation runs
  before any repository access: when \<open>validateQuery\<close> rejects a query, \<open>discoverPlaces\<close>
  fails with that error and the heap is untouched.
\<close>

theorem discoverPlaces_unknown_category:
  "validateQuery cfg (q0\<lparr>q_category := c0\<rparr>) = validateQuery cfg q0
   \<and> (- 90 \<le> latitude q \<and> latitude q \<le> 90 \<and> - 180 \<le> longitude q \<and> longitude q \<le> 180
       \<and> (\<forall>x. radius q = Some x \<longrightarrow> 1 / 10 \<le> x \<and> x \<le> maxRadius cfg)
       \<and> (\<forall>l. limit q = Some l \<longrightarrow> 1 \<le> l \<and> l \<le> maxResults cfg)
       \<and> q_category q = Some c \<and> c \<notin> set PlaceCategory
      \<longrightarrow> (\<exists>r. discoverPlaces cfg ps clk q = Inr r)
          \<and> (c \<noteq> [] \<and> toLowerCase c \<notin> set PlaceCategory
               \<longrightarrow> (\<exists>r. discoverPlaces cfg mockPlaces clk q = Inr r
                          \<and> results r = [] \<and> r_total r = 0)))
   \<and> (validateQuery cfg q' = Inl e
      \<longrightarrow> discoverPlaces_h cfg repo clk q' h = (Inl e, h)
          \<and> discoverPlaces cfg ps' clk q' = Inl e)"
proof (intro conjI impI)
  show "validateQuery cfg (q0\<lparr>q_category := c0\<rparr>) = validateQuery cfg q0"
    by (rule validateQuery_ignores_category)
next
  assume a: "- 90 \<le> latitude q \<and> latitude q \<le> 90 \<and> - 180 \<le> longitude q \<and> longitude q \<le> 180
       \<and> (\<forall>x. radius q = Some x \<longrightarrow> 1 / 10 \<le> x \<and> x \<le> maxRadius cfg)
       \<and> (\<forall>l. limit q = Some l \<longrightarrow> 1 \<le> l \<and> l \<le> maxResults cfg)
       \<and> q_category q = Some c \<and> c \<notin> set PlaceCategory"
  then have "validateQuery cfg q = Inr ()"
    by (intro validateQuery_in_range) simp_all
  then show "\<exists>r. discoverPlaces cfg ps clk q = Inr r"
    by (simp add: discoverPlaces_Inr_iff)
next
  assume a: "- 90 \<le> latitude q \<and> latitude q \<le> 90 \<and> - 180 \<le> longitude q \<and> longitude q \<le> 180
       \<and> (\<forall>x. radius q = Some x \<longrightarrow> 1 / 10 \<le> x \<and> x \<le> maxRadius cfg)
       \<and> (\<forall>l. limit q = Some l \<longrightarrow> 1 \<le> l \<and> l \<le> maxResults cfg)
       \<and> q_category q = Some c \<and> c \<notin> set PlaceCategory"
    and b: "c \<noteq> [] \<and> toLowerCase c \<notin> set PlaceCategory"
  from a have v: "validateQuery cfg q = Inr ()"
    by (intro validateQuery_in_range) simp_all
  from b have "getPlacesByCategory mockPlaces c = []"
    by (simp add: getPlacesByCategory_unknown)
  with a b v show "\<exists>r. discoverPlaces cfg mockPlaces clk q = Inr r
                        \<and> results r = [] \<and> r_total r = 0"
    by (simp add: no_candidates_no_results)
next
  assume "validateQuery cfg q' = Inl e"
  then show "discoverPlaces_h cfg repo clk q' h = (Inl e, h)"
    by (rule discoverPlaces_h_validation_first)
next
  assume "validateQuery cfg q' = Inl e"
  then show "discoverPlaces cfg ps' clk q' = Inl e"
    by (rule discoverPlaces_validation_first)
qed

text \<open>The query has radius 2, limit 5 and the category \<open>museum\<close>; the rejected query has
  latitude 91 and is run on \<open>heap0\<close>.\<close>

theorem discoverPlaces_unknown_category_witness:
  "validateQuery defaultConfig (nycQuery\<lparr>q_category := Some ''museum''\<rparr>)
     = validateQuery defaultConfig nycQuery
   \<and> (\<exists>r. discoverPlaces defaultConfig twoPlaces clock0
             (nycQuery\<lparr>radius := Some 2, q_category := Some ''museum'', limit := Some 5\<rparr>)
           = Inr r)
   \<and> (\<exists>r. discoverPlaces defaultConfig mockPlaces clock0
             (nycQuery\<lparr>radius := Some 2, q_category := Some ''museum'', limit := Some 5\<rparr>)
           = Inr r \<and> results r = [] \<and> r_total r = 0)
   \<and> discoverPlaces_h defaultConfig 2 clock0 (nycQuery\<lparr>latitude := 91\<rparr>) heap0
       = (Inl (InvalidLatitude 91), heap0)
   \<and> discoverPlaces defaultConfig mockPlaces clock0 (nycQuery\<lparr>latitude := 91\<rparr>)
       = Inl (InvalidLatitude 91)"
proof -
  let ?q = "nycQuery\<lparr>radius := Some 2, q_category := Some ''museum'', limit := Some 5\<rparr>"
  have a: "- 90 \<le> latitude ?q \<and> latitude ?q \<le> 90
       \<and> - 180 \<le> longitude ?q \<and> longitude ?q \<le> 180
       \<and> (\<forall>x. radius ?q = Some x \<longrightarrow> 1 / 10 \<le> x \<and> x \<le> maxRadius defaultConfig)
       \<and> (\<forall>l. limit ?q = Some l \<longrightarrow> 1 \<le> l \<and> l \<le> maxResults defaultConfig)
       \<and> q_category ?q = Some ''museum'' \<and> ''museum'' \<notin> set PlaceCategory"
    by (simp add: nycQuery_def defaultConfig_def museum_unknown)
  have b: "''museum'' \<noteq> [] \<and> toLowerCase ''museum'' \<notin> set PlaceCategory"
    by (simp add: museum_unknown)
  have c: "validateQuery defaultConfig (nycQuery\<lparr>latitude := 91\<rparr>) = Inl (InvalidLatitude 91)"
    by (simp add: validateQuery_def isValidLatitude_def)
  note t = discoverPlaces_unknown_category
    [where cfg = defaultConfig and ?q0.0 = nycQuery and ?c0.0 = "Some ''museum''"
       and q = ?q and c = "''museum''" and clk = clock0
       and q' = "nycQuery\<lparr>latitude := 91\<rparr>" and e = "InvalidLatitude 91"
       and repo = 2 and h = heap0 and ps' = mockPlaces]
  from t [where ps = twoPlaces] a b c show ?thesis by blast
qed

section \<open>The discovery pipeline\<close>

lemma discoverPlaces_results:
  "discoverPlaces cfg ps clk q = Inr r \<Longrightarrow>
   results r =
     slice0
       (sortByDistance
         (filterByRadius
           (calculateDistances
             (if truthy_str (q_category q) then getPlacesByCategory ps (the (q_category q))
              else getAllPlaces ps)
             \<lparr>lat = latitude q, lng = longitude q\<rparr>)
           (or_default (radius q) (defaultRadius cfg))))
       (min (or_default (limit q) 10) (maxResults cfg))"
  by (auto simp: discoverPlaces_def Let_def split: sum.splits)

lemma twoPlaces_distances:
  "lat c = 40713 / 1000 \<Longrightarrow> lng c = - (74005 / 1000) \<Longrightarrow>
   calculateDistances twoPlaces c = twoPlaces"
  by (simp add: calculateDistances_def twoPlaces_def mk_place_def calculateDistance_same_point)

lemma twoPlaces_atAlfredo:
  "discoverPlaces defaultConfig twoPlaces clock0 atAlfredo
   = Inr \<lparr>results = [twoPlaces ! 0], r_total = 1,
          query = atAlfredo\<lparr>radius := Some 5\<rparr>,
          metadata = \<lparr>processing_time_ms = 3, timestamp = ''2024-01-15T10:30:00.003Z''\<rparr>\<rparr>"
  apply (simp add: discoverPlaces_def validateQuery_def isValidLatitude_def isValidLongitude_def
      isNaN_def Let_def defaultConfig_def clock0_def getAllPlaces_def twoPlaces_distances
      atAlfredo_def)
  apply (simp add: twoPlaces_def mk_place_def filterByRadius_def sortByDistance_def slice0_def
      toInteger_def)
  done

text \<open>
  C5: the field \<open>total\<close> of a response is the number of places in \<open>results\<close>, and
  \<open>results\<close> is the sorted list of the places in the radius after truncation to the
  effective limit: the count is taken after limiting.
\<close>

theorem discoverPlaces_total:
  assumes "discoverPlaces cfg ps clk q = Inr r"
  shows "r_total r = length (results r)
       \<and> results r =
           slice0
             (sortByDistance
               (filterByRadius
                 (calculateDistances
                   (if truthy_str (q_category q) then getPlacesByCategory ps (the (q_category q))
                    else getAllPlaces ps)
                   \<lparr>lat = latitude q, lng = longitude q\<rparr>)
                 (or_default (radius q) (defaultRadius cfg))))
             (min (or_default (limit q) 10) (maxResults cfg))"
  using assms by (auto simp: discoverPlaces_def Let_def split: sum.splits)

text \<open>Two places are in the radius, the limit is 1, and \<open>total\<close> is 1.\<close>

theorem discoverPlaces_total_witness:
  "length (filterByRadius
     (calculateDistances twoPlaces \<lparr>lat = latitude atAlfredo, lng = longitude atAlfredo\<rparr>)
     5) = 2
   \<and> (\<exists>r. discoverPlaces defaultConfig twoPlaces clock0 atAlfredo = Inr r
          \<and> results r = [twoPlaces ! 0] \<and> r_total r = length (results r) \<and> r_total r = 1)"
proof -
  have "length (filterByRadius
     (calculateDistances twoPlaces \<lparr>lat = latitude atAlfredo, lng = longitude atAlfredo\<rparr>)
     5) = 2"
    by (simp add: twoPlaces_distances atAlfredo_def)
      (simp add: twoPlaces_def mk_place_def filterByRadius_def)
  moreover from discoverPlaces_total [OF twoPlaces_atAlfredo, THEN conjunct1]
  have "\<exists>r. discoverPlaces defaultConfig twoPlaces clock0 atAlfredo = Inr r
          \<and> results r = [twoPlaces ! 0] \<and> r_total r = length (results r) \<and> r_total r = 1"
    by (simp add: twoPlaces_atAlfredo)
  ultimately show ?thesis by (rule conjI)
qed

text \<open>What holds of every successful call, for the radius and the limit that the code
  resolves: \<open>query.radius || defaultRadius\<close> and
  \<open>Math.min(query.limit || 10, maxResults)\<close>.\<close>

lemma discoverPlaces_within_code_radius:
  assumes "discoverPlaces cfg ps clk q = Inr r"
  shows "\<forall>p \<in> set (results r). distance_km p \<le> or_default (radius q) (defaultRadius cfg)"
proof
  fix p assume "p \<in> set (results r)"
  then have "p \<in> set (sortByDistance (filterByRadius
           (calculateDistances
             (if truthy_str (q_category q) then getPlacesByCategory ps (the (q_category q))
              else getAllPlaces ps)
             \<lparr>lat = latitude q, lng = longitude q\<rparr>)
           (or_default (radius q) (defaultRadius cfg))))"
    using set_slice0 discoverPlaces_results [OF assms] by fastforce
  then show "distance_km p \<le> or_default (radius q) (defaultRadius cfg)"
    by (simp add: sortByDistance_def set_sort_cmp filterByRadius_def)
qed

lemma discoverPlaces_sorted:
  assumes "discoverPlaces cfg ps clk q = Inr r"
  shows "sorted (map distance_km (results r))"
  by (simp only: discoverPlaces_results [OF assms] sorted_slice0 sorted_sortByDistance)

text \<open>So every result is within the radius of the query, or within the default radius
  when the query has none, unless the radius of the query is zero.\<close>

lemma discoverPlaces_within_radius_nonzero:
  assumes "discoverPlaces cfg ps clk q = Inr r" and "radius q \<noteq> Some 0"
  shows "(\<forall>p \<in> set (results r).
            distance_km p \<le> (case radius q of None \<Rightarrow> defaultRadius cfg | Some x \<Rightarrow> x))
         \<and> sorted (map distance_km (results r))"
proof -
  have "or_default (radius q) (defaultRadius cfg)
          = (case radius q of None \<Rightarrow> defaultRadius cfg | Some x \<Rightarrow> x)"
    using assms(2) by (cases "radius q") auto
  with discoverPlaces_within_code_radius [OF assms(1)] discoverPlaces_sorted [OF assms(1)]
  show ?thesis by simp
qed

lemma discoverPlaces_length_code_limit:
  assumes "discoverPlaces cfg ps clk q = Inr r" and "0 \<le> maxResults cfg"
  shows "real (length (results r)) \<le> min (or_default (limit q) 10) (maxResults cfg)"
proof -
  have v: "validateQuery cfg q = Inr ()"
    using assms(1) by (cases "validateQuery cfg q") (auto simp: discoverPlaces_def)
  have "0 \<le> or_default (limit q) 10"
  proof (cases "limit q")
    case None then show ?thesis by simp
  next
    case (Some l)
    then show ?thesis using validateQuery_limit_bounds [OF v Some] by (cases "l = 0") auto
  qed
  then have "0 \<le> min (or_default (limit q) 10) (maxResults cfg)" using assms(2) by simp
  then show ?thesis
    by (simp only: discoverPlaces_results [OF assms(1)] length_slice0)
qed

text \<open>So the results are at most as many as the limit of the query, or 10 when the query
  has none, and as the configured maximum, unless the limit of the query is zero; the
  configured maximum must not be negative.\<close>

lemma discoverPlaces_length_limit_nonzero:
  assumes "discoverPlaces cfg ps clk q = Inr r" and "0 \<le> maxResults cfg"
    and "limit q \<noteq> Some 0"
  shows "real (length (results r))
           \<le> min (case limit q of None \<Rightarrow> 10 | Some l \<Rightarrow> l) (maxResults cfg)"
proof -
  have "or_default (limit q) 10 = (case limit q of None \<Rightarrow> 10 | Some l \<Rightarrow> l)"
    using assms(3) by (cases "limit q") auto
  with discoverPlaces_length_code_limit [OF assms(1,2)] show ?thesis by simp
qed

text \<open>A query with a category that selects one place, inside the radius.\<close>

lemma restaurant_candidates:
  "getPlacesByCategory mockPlaces ''restaurant'' = [mockPlaces ! 0]"
  by code_simp

lemma rest_001_location:
  "lat (location (mockPlaces ! 0)) = 40713 / 1000
   \<and> lng (location (mockPlaces ! 0)) = - (74005 / 1000)
   \<and> place_id (mockPlaces ! 0) = ''rest_001''"
  by (simp add: mockPlaces_def mk_place_def)

lemma single_candidate_result:
  assumes v: "validateQuery cfg q = Inr ()" and c: "q_category q = Some cat" and "cat \<noteq> []"
    and g: "getPlacesByCategory ps cat = [p]"
    and d: "calculateDistance \<lparr>lat = latitude q, lng = longitude q\<rparr> (location p)
              \<le> or_default (radius q) (defaultRadius cfg)"
    and l: "1 \<le> min (or_default (limit q) 10) (maxResults cfg)"
  shows "\<exists>r. discoverPlaces cfg ps clk q = Inr r
           \<and> results r = [p\<lparr>distance_km :=
                 calculateDistance \<lparr>lat = latitude q, lng = longitude q\<rparr> (location p)\<rparr>]"
  using assms
  by (simp add: discoverPlaces_def Let_def calculateDistances_def filterByRadius_def
      sortByDistance_def slice0_singleton)

text \<open>
  C1 at the query \<open>{latitude: 40.723, longitude: -74.005, radius: 0, category:
  'restaurant'}\<close>: the query passes \<open>validateQuery\<close>, the radius used is the default 5, and
  the result holds the place \<open>rest_001\<close> at a distance between 0.71 and 1.42 km, which is
  more than the radius 0 of the query.
\<close>

theorem discoverPlaces_radius_zero:
  "validateQuery defaultConfig
     \<lparr>latitude = 40723 / 1000, longitude = - (74005 / 1000), radius = Some 0,
      q_category = Some ''restaurant'', limit = None\<rparr> = Inr ()
   \<and> (\<exists>r p. discoverPlaces defaultConfig mockPlaces clk
                \<lparr>latitude = 40723 / 1000, longitude = - (74005 / 1000), radius = Some 0,
                 q_category = Some ''restaurant'', limit = None\<rparr> = Inr r
            \<and> results r = [p] \<and> place_id p = ''rest_001''
            \<and> 71 / 100 \<le> distance_km p \<and> distance_km p \<le> 142 / 100
            \<and> \<not> distance_km p \<le> 0)"
proof -
  let ?q = "\<lparr>latitude = 40723 / 1000, longitude = - (74005 / 1000), radius = Some 0,
             q_category = Some ''restaurant'', limit = None\<rparr>"
  let ?d = "calculateDistance \<lparr>lat = latitude ?q, lng = longitude ?q\<rparr>
              (location (mockPlaces ! 0))"
  have v: "validateQuery defaultConfig ?q = Inr ()"
    by (simp add: validateQuery_def isValidLatitude_def isValidLongitude_def isNaN_def)
  have b: "71 / 100 \<le> ?d \<and> ?d \<le> 142 / 100"
    by (rule calculateDistance_hundredth_degree) (simp_all add: rest_001_location)
  then have d: "?d \<le> or_default (radius ?q) (defaultRadius defaultConfig)"
    by (simp add: defaultConfig_def)
  have l: "1 \<le> min (or_default (limit ?q) 10) (maxResults defaultConfig)"
    by (simp add: defaultConfig_def)
  from single_candidate_result [OF v _ _ restaurant_candidates d l, of clk]
  obtain r where r: "discoverPlaces defaultConfig mockPlaces clk ?q = Inr r"
    "results r = [(mockPlaces ! 0)\<lparr>distance_km := ?d\<rparr>]"
    by auto
  show ?thesis
    using v r b by (auto simp: rest_001_location)
qed

text \<open>
  C4 at the query \<open>{latitude: 40.713, longitude: -74.005, category: 'restaurant',
  limit: 0}\<close>: the query passes \<open>validateQuery\<close>, the limit used is the default 10, and the
  result holds one place, which is more than \<open>min(0, maxResults)\<close>.
\<close>

theorem discoverPlaces_limit_zero:
  "\<exists>r. discoverPlaces defaultConfig mockPlaces clk
          \<lparr>latitude = 40713 / 1000, longitude = - (74005 / 1000), radius = None,
           q_category = Some ''restaurant'', limit = Some 0\<rparr> = Inr r
      \<and> length (results r) = 1 \<and> limit (query r) = Some 10
      \<and> \<not> real (length (results r)) \<le> min 0 (maxResults defaultConfig)"
proof -
  let ?q = "\<lparr>latitude = 40713 / 1000, longitude = - (74005 / 1000), radius = None,
           q_category = Some ''restaurant'', limit = Some 0\<rparr>"
  let ?d = "calculateDistance \<lparr>lat = latitude ?q, lng = longitude ?q\<rparr>
              (location (mockPlaces ! 0))"
  have v: "validateQuery defaultConfig ?q = Inr ()"
    by (simp add: validateQuery_def isValidLatitude_def isValidLongitude_def isNaN_def)
  have "?d = 0"
    by (rule calculateDistance_same_point) (simp_all add: rest_001_location)
  then have d: "?d \<le> or_default (radius ?q) (defaultRadius defaultConfig)"
    by (simp add: defaultConfig_def)
  have l: "1 \<le> min (or_default (limit ?q) 10) (maxResults defaultConfig)"
    by (simp add: defaultConfig_def)
  from single_candidate_result [OF v _ _ restaurant_candidates d l, of clk]
  obtain r where r: "discoverPlaces defaultConfig mockPlaces clk ?q = Inr r"
    "length (results r) = 1"
    by auto
  from r(1) have "limit (query r) = Some 10"
    by (auto simp: discoverPlaces_def Let_def defaultConfig_def split: sum.splits)
  with r show ?thesis by (auto simp: defaultConfig_def)
qed

section \<open>The nearest place\<close>

text \<open>
  C6: \<open>findNearestPlace\<close> calls \<open>discoverPlaces\<close> with the radius \<open>maxRadius\<close> and the
  limit 1.  It returns the first result of that call, null when the call has no results,
  and the error of the call when it fails.
\<close>

theorem findNearestPlace_first_result:
  "findNearestPlace cfg ps clk la lo cat =
     (case discoverPlaces cfg ps clk
             \<lparr>latitude = la, longitude = lo, radius = Some (maxRadius cfg),
              q_category = cat, limit = Some 1\<rparr> of
        Inl e \<Rightarrow> Inl e
      | Inr response \<Rightarrow>
          Inr (case results response of [] \<Rightarrow> None | p # _ \<Rightarrow> Some p))"
  by (simp add: findNearestPlace_def Let_def split: sum.splits list.splits)

text \<open>With the default configuration and coordinates in range the call does not fail,
  and a place it returns is as near as every candidate within \<open>maxRadius\<close>.\<close>

lemma findNearestPlace_no_error:
  assumes "isValidLatitude la" and "isValidLongitude lo"
  shows "\<exists>res. findNearestPlace defaultConfig ps clk la lo cat = Inr res"
  using assms
  by (simp add: findNearestPlace_def discoverPlaces_def validateQuery_def defaultConfig_def
      Let_def)

lemma slice0_one: "slice0 xs 1 = take 1 xs"
  by (simp add: slice0_def toInteger_def Let_def)

lemma findNearestPlace_nearest:
  assumes "findNearestPlace defaultConfig ps clk la lo cat = Inr (Some p)"
    and "p' \<in> set (filterByRadius
                    (calculateDistances
                      (if truthy_str cat then getPlacesByCategory ps (the cat)
                       else getAllPlaces ps)
                      \<lparr>lat = la, lng = lo\<rparr>) 50)"
  shows "distance_km p \<le> distance_km p'"
proof -
  let ?F = "filterByRadius
              (calculateDistances
                (if truthy_str cat then getPlacesByCategory ps (the cat) else getAllPlaces ps)
                \<lparr>lat = la, lng = lo\<rparr>) 50"
  let ?q = "\<lparr>latitude = la, longitude = lo, radius = Some (maxRadius defaultConfig),
             q_category = cat, limit = Some 1\<rparr>"
  from assms(1) obtain r where r: "discoverPlaces defaultConfig ps clk ?q = Inr r"
    and p: "results r \<noteq> []" "p = results r ! 0"
    by (auto simp: findNearestPlace_def Let_def split: sum.splits if_splits)
  from discoverPlaces_results [OF r]
  have "results r = take 1 (sortByDistance ?F)"
    by (simp add: defaultConfig_def slice0_one)
  with p obtain rest where s: "sortByDistance ?F = p # rest"
    by (cases "sortByDistance ?F") auto
  have "p' \<in> set (sortByDistance ?F)"
    using assms(2) by (simp add: sortByDistance_def set_sort_cmp)
  moreover have "sorted (map distance_km (p # rest))"
    using sorted_sortByDistance [of ?F] by (simp only: s)
  ultimately show ?thesis using s by auto
qed

section \<open>What a call changes on the heap\<close>

lemma same_below_refl: "same_below n h h"
  by (simp add: same_below_def)

lemma same_below_trans: "same_below n h h1 \<Longrightarrow> same_below n h1 h2 \<Longrightarrow> same_below n h h2"
  by (simp add: same_below_def)

lemma new_array_frame:
  assumes "new_array rs h = (a, h')" and "n \<le> h_next h"
  shows "same_below n h h' \<and> n \<le> a \<and> a < h_next h' \<and> h_next h \<le> h_next h'
         \<and> h_arrays h' a = rs"
  using assms by (auto simp: new_array_def same_below_def)

lemma new_object_frame:
  assumes "new_object p h = (a, h')" and "n \<le> h_next h"
  shows "same_below n h h' \<and> n \<le> a \<and> h_next h \<le> h_next h' \<and> h_objects h' a = p"
  using assms by (auto simp: new_object_def same_below_def)

lemma map_copy_frame:
  assumes "map_copy f rs h = (rs', h')" and "n \<le> h_next h"
  shows "same_below n h h' \<and> (\<forall>r \<in> set rs'. n \<le> r) \<and> h_next h \<le> h_next h'"
  using assms
proof (induction rs arbitrary: h rs' h')
  case Nil
  then show ?case by (simp add: same_below_refl)
next
  case (Cons r rs)
  obtain r1 h1 where o: "new_object (f (h_objects h r)) h = (r1, h1)" by fastforce
  obtain rs2 h2 where m: "map_copy f rs h1 = (rs2, h2)" by fastforce
  from Cons.prems(1) o m have e: "rs' = r1 # rs2" "h' = h2" by simp_all
  from new_object_frame [OF o Cons.prems(2)]
  have a: "same_below n h h1" "n \<le> r1" "h_next h \<le> h_next h1" by simp_all
  then have "n \<le> h_next h1" using Cons.prems(2) by simp
  from Cons.IH [OF m this]
  have b: "same_below n h1 h2" "\<forall>r \<in> set rs2. n \<le> r" "h_next h1 \<le> h_next h2" by simp_all
  show ?case using a b e by (auto intro: same_below_trans)
qed

text \<open>\<open>sort\<close> writes to the array it is called on and to nothing else.\<close>

lemma sortByDistance_h_frame:
  assumes "sortByDistance_h a h = (a', h')" and "n \<le> a"
  shows "same_below n h h' \<and> a' = a \<and> h_next h' = h_next h
         \<and> set (h_arrays h' a) = set (h_arrays h a)"
  using assms by (auto simp: sortByDistance_h_def same_below_def set_sort_cmp)

lemma candidates_h_frame:
  assumes "(if truthy_str (q_category q) then getPlacesByCategory_h repo (the (q_category q)) h
            else getAllPlaces_h repo h) = (a, h')"
  shows "same_below (h_next h) h h' \<and> h_next h \<le> a \<and> h_next h \<le> h_next h'"
  using assms new_array_frame [of _ h a h' "h_next h"]
  by (auto simp: getPlacesByCategory_h_def getAllPlaces_h_def split: if_splits)

lemma calculateDistances_h_frame:
  assumes "calculateDistances_h a c h = (a', h')" and "n \<le> h_next h"
  shows "same_below n h h' \<and> n \<le> a' \<and> h_next h \<le> h_next h'
         \<and> (\<forall>r \<in> set (h_arrays h' a'). n \<le> r)"
proof -
  obtain rs h1 where m: "map_copy
      (\<lambda>place. place\<lparr>distance_km := calculateDistance c (location place)\<rparr>)
      (h_arrays h a) h = (rs, h1)" by fastforce
  with assms(1) have na: "new_array rs h1 = (a', h')"
    by (simp add: calculateDistances_h_def)
  from map_copy_frame [OF m assms(2)]
  have 1: "same_below n h h1" "\<forall>r \<in> set rs. n \<le> r" "h_next h \<le> h_next h1" by simp_all
  then have "n \<le> h_next h1" using assms(2) by simp
  from new_array_frame [OF na this]
  have 2: "same_below n h1 h'" "n \<le> a'" "h_next h1 \<le> h_next h'" "h_arrays h' a' = rs"
    by simp_all
  show ?thesis using 1 2 by (auto intro: same_below_trans)
qed

lemma filterByRadius_h_frame:
  assumes "filterByRadius_h a x h = (a', h')" and "n \<le> h_next h"
  shows "same_below n h h' \<and> n \<le> a' \<and> h_next h \<le> h_next h'
         \<and> set (h_arrays h' a') \<subseteq> set (h_arrays h a)"
  using assms new_array_frame [of _ h a' h' n]
  by (auto simp: filterByRadius_h_def)

lemma slice0_h_frame:
  assumes "slice0_h a e h = (a', h')" and "n \<le> h_next h"
  shows "same_below n h h' \<and> n \<le> a' \<and> h_next h \<le> h_next h'
         \<and> set (h_arrays h' a') \<subseteq> set (h_arrays h a)"
  using assms new_array_frame [of _ h a' h' n] set_slice0 [of "h_arrays h a" e]
  by (auto simp: slice0_h_def)

text \<open>A call leaves every address that was allocated before it as it was; the array of
  results and the objects in it are allocated by the call.\<close>

lemma discoverPlaces_h_frame:
  assumes "discoverPlaces_h cfg repo clk q h = (out, h')"
  shows "same_below (h_next h) h h'
         \<and> (\<forall>resp. out = Inr resp \<longrightarrow>
               h_next h \<le> results_h resp
               \<and> (\<forall>r \<in> set (h_arrays h' (results_h resp)). h_next h \<le> r))"
proof (cases "validateQuery cfg q")
  case (Inl e)
  with assms show ?thesis by (auto simp: discoverPlaces_h_def same_below_refl)
next
  case (Inr u)
  let ?n = "h_next h"
  let ?radius = "or_default (radius q) (defaultRadius cfg)"
  let ?limit = "min (or_default (limit q) 10) (maxResults cfg)"
  obtain a1 h1 where s1:
    "(if truthy_str (q_category q) then getPlacesByCategory_h repo (the (q_category q)) h
      else getAllPlaces_h repo h) = (a1, h1)" by fastforce
  obtain a2 h2 where s2:
    "calculateDistances_h a1 \<lparr>lat = latitude q, lng = longitude q\<rparr> h1 = (a2, h2)"
    by fastforce
  obtain a3 h3 where s3: "filterByRadius_h a2 ?radius h2 = (a3, h3)" by fastforce
  obtain a4 h4 where s4: "sortByDistance_h a3 h3 = (a4, h4)" by fastforce
  obtain a5 h5 where s5: "slice0_h a4 ?limit h4 = (a5, h5)" by fastforce
  from assms Inr s1 s2 s3 s4 s5
  have res: "h' = h5" "\<exists>resp. out = Inr resp \<and> results_h resp = a5"
    by (auto simp: discoverPlaces_h_def Let_def)
  from candidates_h_frame [OF s1]
  have f1: "same_below ?n h h1" "?n \<le> h_next h1" by simp_all
  from calculateDistances_h_frame [OF s2 f1(2)]
  have f2: "same_below ?n h1 h2" "?n \<le> h_next h2" "\<forall>r \<in> set (h_arrays h2 a2). ?n \<le> r"
    using f1(2) by auto
  from filterByRadius_h_frame [OF s3 f2(2)]
  have f3: "same_below ?n h2 h3" "?n \<le> a3" "?n \<le> h_next h3"
    "set (h_arrays h3 a3) \<subseteq> set (h_arrays h2 a2)"
    using f2(2) by auto
  from sortByDistance_h_frame [OF s4 f3(2)]
  have f4: "same_below ?n h3 h4" "a4 = a3" "h_next h4 = h_next h3"
    "set (h_arrays h4 a3) = set (h_arrays h3 a3)" by simp_all
  then have n4: "?n \<le> h_next h4" using f3(3) by simp
  from slice0_h_frame [OF s5 n4]
  have f5: "same_below ?n h4 h5" "?n \<le> a5" "set (h_arrays h5 a5) \<subseteq> set (h_arrays h4 a4)"
    by simp_all
  have frame: "same_below ?n h h5"
    using f1(1) f2(1) f3(1) f4(1) f5(1) by (blast intro: same_below_trans)
  have fresh: "\<forall>r \<in> set (h_arrays h5 a5). ?n \<le> r"
    using f5(3) f4(2,4) f3(4) f2(3) by blast
  show ?thesis using res frame fresh f5(2) by auto
qed

section \<open>The heap model computes the responses of the list model\<close>

lemma new_array_read:
  assumes "new_array rs h = (a, h')"
  shows "places_of h' a = map (h_objects h) rs \<and> h_objects h' = h_objects h
         \<and> h_next h' = Suc (h_next h) \<and> a = h_next h \<and> h_arrays h' a = rs"
  using assms by (auto simp: new_array_def places_of_def)

lemma map_copy_read:
  assumes "map_copy f rs h = (rs', h')" and "\<forall>r \<in> set rs. r < h_next h"
  shows "map (h_objects h') rs' = map f (map (h_objects h) rs)
         \<and> h_arrays h' = h_arrays h
         \<and> (\<forall>a. a < h_next h \<longrightarrow> h_objects h' a = h_objects h a)
         \<and> h_next h \<le> h_next h'"
  using assms
proof (induction rs arbitrary: h rs' h')
  case Nil
  then show ?case by simp
next
  case (Cons r rs)
  obtain r1 h1 where o: "new_object (f (h_objects h r)) h = (r1, h1)" by fastforce
  obtain rs2 h2 where m: "map_copy f rs h1 = (rs2, h2)" by fastforce
  from Cons.prems(1) o m have e: "rs' = r1 # rs2" "h' = h2" by simp_all
  from o have h1: "r1 = h_next h" "h_next h1 = Suc (h_next h)" "h_arrays h1 = h_arrays h"
    "h_objects h1 = (h_objects h)(h_next h := f (h_objects h r))"
    by (auto simp: new_object_def)
  have b: "\<forall>x \<in> set rs. x < h_next h1" using Cons.prems(2) h1(2) by auto
  from Cons.IH [OF m b]
  have ih: "map (h_objects h2) rs2 = map f (map (h_objects h1) rs)"
    "h_arrays h2 = h_arrays h1"
    "\<forall>a. a < h_next h1 \<longrightarrow> h_objects h2 a = h_objects h1 a"
    "h_next h1 \<le> h_next h2" by simp_all
  have same: "map (h_objects h1) rs = map (h_objects h) rs"
    using Cons.prems(2) h1(4) by (auto intro!: map_cong)
  have first: "h_objects h2 r1 = f (h_objects h r)"
    using ih(3) h1 by simp
  have below: "\<forall>a. a < h_next h \<longrightarrow> h_objects h2 a = h_objects h a"
    using ih(3) h1 by simp
  show ?case using e ih same first below h1 by simp
qed

lemma candidates_h_read:
  assumes "(if truthy_str (q_category q) then getPlacesByCategory_h repo (the (q_category q)) h
            else getAllPlaces_h repo h) = (a, h')"
  shows "places_of h' a =
           (if truthy_str (q_category q)
            then getPlacesByCategory (places_of h repo) (the (q_category q))
            else getAllPlaces (places_of h repo))
         \<and> set (h_arrays h' a) \<subseteq> set (h_arrays h repo) \<and> h_next h \<le> h_next h'"
  using assms
  by (auto simp: getPlacesByCategory_h_def getAllPlaces_h_def getPlacesByCategory_def
      getAllPlaces_def places_of_def new_array_def filter_map comp_def split: if_splits)

lemma calculateDistances_h_read:
  assumes "calculateDistances_h a c h = (a', h')" and "\<forall>r \<in> set (h_arrays h a). r < h_next h"
  shows "places_of h' a' = calculateDistances (places_of h a) c"
proof -
  obtain rs h1 where m: "map_copy
      (\<lambda>place. place\<lparr>distance_km := calculateDistance c (location place)\<rparr>)
      (h_arrays h a) h = (rs, h1)" by fastforce
  with assms(1) have na: "new_array rs h1 = (a', h')"
    by (simp add: calculateDistances_h_def)
  from new_array_read [OF na] have "places_of h' a' = map (h_objects h1) rs"
    by (rule conjunct1)
  also from map_copy_read [OF m assms(2)]
  have "map (h_objects h1) rs =
          map (\<lambda>place. place\<lparr>distance_km := calculateDistance c (location place)\<rparr>)
            (map (h_objects h) (h_arrays h a))"
    by (rule conjunct1)
  finally show ?thesis by (simp only: calculateDistances_def places_of_def)
qed

lemma filterByRadius_h_read:
  assumes "filterByRadius_h a x h = (a', h')"
  shows "places_of h' a' = filterByRadius (places_of h a) x"
  using assms
  by (auto simp: filterByRadius_h_def filterByRadius_def places_of_def new_array_def
      filter_map comp_def)

lemma sortByDistance_h_read:
  assumes "sortByDistance_h a h = (a', h')"
  shows "places_of h' a' = sortByDistance (places_of h a)"
  using assms
  by (auto simp: sortByDistance_h_def sortByDistance_def places_of_def
      map_sort_cmp [where cmp = "\<lambda>a b. distance_km a - distance_km b"])

lemma slice0_h_read:
  assumes "slice0_h a e h = (a', h')"
  shows "places_of h' a' = slice0 (places_of h a) e"
  using assms by (auto simp: slice0_h_def places_of_def new_array_def map_slice0)

text \<open>On a heap in which the places of the repository array are allocated, a call
  returns what \<open>discoverPlaces\<close> returns on the list of these places.\<close>

lemma discoverPlaces_h_refines:
  assumes "discoverPlaces_h cfg repo clk q h = (out, h')"
    and "\<forall>r \<in> set (h_arrays h repo). r < h_next h"
  shows "discoverPlaces cfg (places_of h repo) clk q = map_sum id (response_of h') out"
proof (cases "validateQuery cfg q")
  case (Inl e)
  with assms(1) show ?thesis by (auto simp: discoverPlaces_h_def discoverPlaces_def)
next
  case (Inr u)
  let ?radius = "or_default (radius q) (defaultRadius cfg)"
  let ?limit = "min (or_default (limit q) 10) (maxResults cfg)"
  obtain a1 h1 where s1:
    "(if truthy_str (q_category q) then getPlacesByCategory_h repo (the (q_category q)) h
      else getAllPlaces_h repo h) = (a1, h1)" by fastforce
  obtain a2 h2 where s2:
    "calculateDistances_h a1 \<lparr>lat = latitude q, lng = longitude q\<rparr> h1 = (a2, h2)"
    by fastforce
  obtain a3 h3 where s3: "filterByRadius_h a2 ?radius h2 = (a3, h3)" by fastforce
  obtain a4 h4 where s4: "sortByDistance_h a3 h3 = (a4, h4)" by fastforce
  obtain a5 h5 where s5: "slice0_h a4 ?limit h4 = (a5, h5)" by fastforce
  from assms(1) Inr s1 s2 s3 s4 s5
  have out: "h' = h5"
    "out = Inr \<lparr>results_h = a5, total_h = length (h_arrays h5 a5),
               query_h = \<lparr>latitude = latitude q, longitude = longitude q,
                          radius = Some ?radius, q_category = q_category q,
                          limit = Some ?limit\<rparr>,
               metadata_h = \<lparr>processing_time_ms = endTime clk - startTime clk,
                             timestamp = endIso clk\<rparr>\<rparr>"
    by (auto simp: discoverPlaces_h_def Let_def)
  from candidates_h_read [OF s1]
  have r1: "places_of h1 a1 =
           (if truthy_str (q_category q)
            then getPlacesByCategory (places_of h repo) (the (q_category q))
            else getAllPlaces (places_of h repo))"
    and w1: "\<forall>r \<in> set (h_arrays h1 a1). r < h_next h1"
    using assms(2) by fastforce+
  note r2 = calculateDistances_h_read [OF s2 w1]
  note r3 = filterByRadius_h_read [OF s3]
  note r4 = sortByDistance_h_read [OF s4]
  note r5 = slice0_h_read [OF s5]
  have len: "length (h_arrays h5 a5) = length (places_of h5 a5)"
    by (simp add: places_of_def)
  show ?thesis
    unfolding out discoverPlaces_def Inr
    by (simp add: Let_def response_of_def len r5 r4 r3 r2 r1 del: length_map)
qed

section \<open>The repository is not changed\<close>

text \<open>
  C8: a call of \<open>discoverPlaces\<close> does not change the repository.  On a heap in which
  the repository array and the places it refers to are allocated, the array is the same
  after the call and so is every place in it, with all its fields.  The result array is
  not the repository array, and no object in it is an object of the repository: the
  distances are written to new objects.
\<close>

theorem discoverPlaces_h_preserves_repository:
  assumes "discoverPlaces_h cfg repo clk q h = (out, h')"
    and "repo < h_next h" and "\<forall>r \<in> set (h_arrays h repo). r < h_next h"
  shows "h_arrays h' repo = h_arrays h repo
         \<and> (\<forall>r \<in> set (h_arrays h repo). h_objects h' r = h_objects h r)
         \<and> places_of h' repo = places_of h repo
         \<and> (\<forall>resp. out = Inr resp \<longrightarrow>
               results_h resp \<noteq> repo
               \<and> (\<forall>r \<in> set (h_arrays h' (results_h resp)). r \<notin> set (h_arrays h repo)))"
proof -
  from discoverPlaces_h_frame [OF assms(1)]
  have f: "same_below (h_next h) h h'"
    and g: "\<forall>resp. out = Inr resp \<longrightarrow>
               h_next h \<le> results_h resp
               \<and> (\<forall>r \<in> set (h_arrays h' (results_h resp)). h_next h \<le> r)"
    by simp_all
  have 1: "h_arrays h' repo = h_arrays h repo"
    using f assms(2) by (simp add: same_below_def)
  have 2: "\<forall>r \<in> set (h_arrays h repo). h_objects h' r = h_objects h r"
    using f assms(3) by (simp add: same_below_def)
  have 3: "places_of h' repo = places_of h repo"
    using 1 2 by (simp add: places_of_def)
  have 4: "\<forall>resp. out = Inr resp \<longrightarrow>
               results_h resp \<noteq> repo
               \<and> (\<forall>r \<in> set (h_arrays h' (results_h resp)). r \<notin> set (h_arrays h repo))"
    using g assms(2,3) by fastforce
  from 1 2 3 4 show ?thesis by simp
qed

lemma heap0_call:
  "fst (discoverPlaces_h defaultConfig 2 clock0 atAlfredo heap0)
   = Inr \<lparr>results_h = 8, total_h = 1,
          query_h = atAlfredo\<lparr>radius := Some 5\<rparr>,
          metadata_h = \<lparr>processing_time_ms = 3,
                        timestamp = ''2024-01-15T10:30:00.003Z''\<rparr>\<rparr>
   \<and> h_arrays (snd (discoverPlaces_h defaultConfig 2 clock0 atAlfredo heap0)) 8 = [4]
   \<and> h_objects (snd (discoverPlaces_h defaultConfig 2 clock0 atAlfredo heap0)) 4
       = twoPlaces ! 0"
  by (simp add: discoverPlaces_h_def validateQuery_def isValidLatitude_def isValidLongitude_def
      isNaN_def Let_def defaultConfig_def clock0_def getAllPlaces_h_def new_array_def heap0_def
      calculateDistances_h_def new_object_def filterByRadius_h_def sortByDistance_h_def
      slice0_h_def slice0_def toInteger_def twoPlaces_def mk_place_def
      calculateDistance_same_point atAlfredo_def)

lemma heap0_places: "places_of heap0 2 = twoPlaces \<and> h_arrays heap0 2 = [0, 1]"
  by (simp add: places_of_def heap0_def twoPlaces_def)

text \<open>On \<open>heap0\<close> the call allocates the addresses 3 to 8; the repository array at
  address 2 and the two places are as before, and the result array at address 8 holds the
  new object at address 4.\<close>

theorem discoverPlaces_h_preserves_repository_witness:
  "(\<exists>resp. fst (discoverPlaces_h defaultConfig 2 clock0 atAlfredo heap0) = Inr resp
            \<and> results_h resp = 8)
   \<and> h_arrays (snd (discoverPlaces_h defaultConfig 2 clock0 atAlfredo heap0)) 8 = [4]
   \<and> h_arrays (snd (discoverPlaces_h defaultConfig 2 clock0 atAlfredo heap0)) 2 = [0, 1]
   \<and> places_of (snd (discoverPlaces_h defaultConfig 2 clock0 atAlfredo heap0)) 2 = twoPlaces"
proof -
  let ?X = "discoverPlaces_h defaultConfig 2 clock0 atAlfredo heap0"
  have e: "?X = (fst ?X, snd ?X)" by simp
  have a: "2 < h_next heap0" by (simp add: heap0_def)
  have b: "\<forall>r \<in> set (h_arrays heap0 2). r < h_next heap0" by (simp add: heap0_def)
  from discoverPlaces_h_preserves_repository [OF e a b]
  have "h_arrays (snd ?X) 2 = h_arrays heap0 2" "places_of (snd ?X) 2 = places_of heap0 2"
    by simp_all
  then show ?thesis using heap0_call heap0_places by simp
qed

end
